theory Spec2Isabelle
  imports Main
begin

section \<open>Python values and exceptions\<close>

text \<open>
  The module \<^verbatim>\<open>user_processor.py\<close> works on the rows that \<^verbatim>\<open>csv.DictReader\<close> yields and on
  the dictionaries its callers pass in. A dictionary is an association list in insertion
  order with pairwise distinct keys. A key is a field name, or \<^verbatim>\<open>None\<close>: the key under which
  \<^verbatim>\<open>DictReader\<close> stores the surplus fields of an over-long row. A value is \<^verbatim>\<open>None\<close>
  (what \<^verbatim>\<open>DictReader\<close> gives to the missing fields of a short row), an \<^verbatim>\<open>int\<close>, a \<^verbatim>\<open>str\<close>,
  a list or a dictionary. Floats and booleans are not part of the model. A character is a
  Unicode code point below 256.
\<close>

datatype pykey = KNone | KStr string

datatype pyval =
    PNone
  | PInt int
  | PStr string
  | PList "pyval list"
  | PDict "(pykey \<times> pyval) list"

type_synonym pydict = "(pykey \<times> pyval) list"

text \<open>
  The exceptions that can leave the functions of the module. \<open>UserDataError\<close> is the
  class the module declares; the others are Python's own.
\<close>

datatype error =
    NotImplementedError string
  | UserDataError string
  | ValueError
  | TypeError
  | KeyError pykey
  | AttributeError
  | FileNotFoundError
  | OverflowError
  | JSONDecodeError
  | Unmodelled

definition bind :: "error + 'a \<Rightarrow> ('a \<Rightarrow> error + 'b) \<Rightarrow> error + 'b" where
  "bind m f = (case m of Inl e \<Rightarrow> Inl e | Inr x \<Rightarrow> f x)"

text \<open>\<^verbatim>\<open>d[k]\<close>: the value stored under the key, \<open>KeyError\<close> when there is none.\<close>

definition getitem :: "pydict \<Rightarrow> pykey \<Rightarrow> error + pyval" where
  "getitem d k = (case map_of d k of None \<Rightarrow> Inl (KeyError k) | Some v \<Rightarrow> Inr v)"

subsection \<open>The builtin \<^verbatim>\<open>int\<close>\<close>

text \<open>
  \<^verbatim>\<open>int(x)\<close> returns an \<^verbatim>\<open>int\<close> unchanged and parses a \<^verbatim>\<open>str\<close> in base 10: white space
  around, an optional sign, then decimal digits, where single underscores may stand between
  two digits. Anything else is a \<open>ValueError\<close>. \<^verbatim>\<open>None\<close>, a list and a dictionary are a
  \<open>TypeError\<close>.
\<close>

definition is_space :: "char \<Rightarrow> bool" where
  "is_space c = (of_char c \<in> {9, 10, 11, 12, 13, 32, 133, 160 :: nat})"

definition is_digit :: "char \<Rightarrow> bool" where
  "is_digit c = (48 \<le> (of_char c :: nat) \<and> (of_char c :: nat) \<le> 57)"

definition digit_val :: "char \<Rightarrow> int" where
  "digit_val c = int (of_char c) - 48"

text \<open>
  The digits after the sign, read from the left with the value so far. \<open>prev\<close> tells
  whether the character before was a digit: an underscore is accepted only after a digit,
  and the text must not end with one.
\<close>

fun int_digits :: "bool \<Rightarrow> int \<Rightarrow> string \<Rightarrow> int option" where
  "int_digits prev acc [] = (if prev then Some acc else None)"
| "int_digits prev acc (c # cs) =
     (if is_digit c then int_digits True (acc * 10 + digit_val c) cs
      else if c = CHR ''_'' \<and> prev then int_digits False acc cs
      else None)"

definition strip :: "string \<Rightarrow> string" where
  "strip s = rev (dropWhile is_space (rev (dropWhile is_space s)))"

definition int_of_str :: "string \<Rightarrow> int option" where
  "int_of_str s =
     (case strip s of
        [] \<Rightarrow> None
      | c # cs \<Rightarrow>
          if c = CHR ''-'' then map_option uminus (int_digits False 0 cs)
          else if c = CHR ''+'' then int_digits False 0 cs
          else int_digits False 0 (c # cs))"

fun py_int :: "pyval \<Rightarrow> error + int" where
  "py_int (PInt n) = Inr n"
| "py_int (PStr s) = (case int_of_str s of None \<Rightarrow> Inl ValueError | Some n \<Rightarrow> Inr n)"
| "py_int PNone = Inl TypeError"
| "py_int (PList xs) = Inl TypeError"
| "py_int (PDict d) = Inl TypeError"

section \<open>The score\<close>

text \<open>
  \<^verbatim>\<open>
  def calculate_score(p, v):
      return int(p) * 10 + int(v) * 5
  \<close>
  \<^verbatim>\<open>int(p)\<close> is evaluated first, so its exception wins over that of \<^verbatim>\<open>int(v)\<close>.
\<close>

definition calculate_score :: "pyval \<Rightarrow> pyval \<Rightarrow> error + int" where
  "calculate_score p v =
     bind (py_int p) (\<lambda>a. bind (py_int v) (\<lambda>b. Inr (a * 10 + b * 5)))"

section \<open>Text\<close>

text \<open>\<^verbatim>\<open>str(n)\<close> for an \<^verbatim>\<open>int\<close>: the decimal digits, after a minus sign when negative.\<close>

definition digit_char :: "nat \<Rightarrow> char" where
  "digit_char d = char_of (48 + d)"

fun str_nat :: "nat \<Rightarrow> string" where
  "str_nat n = (if n < 10 then [digit_char n] else str_nat (n div 10) @ [digit_char (n mod 10)])"

definition str_int :: "int \<Rightarrow> string" where
  "str_int i = (if i < 0 then CHR ''-'' # str_nat (nat (- i)) else str_nat (nat i))"

text \<open>Two lower-case hexadecimal digits of a number below 256.\<close>

definition hex_char :: "nat \<Rightarrow> char" where
  "hex_char d = (if d < 10 then char_of (48 + d) else char_of (87 + d))"

definition hex2 :: "nat \<Rightarrow> string" where
  "hex2 n = [hex_char (n div 16), hex_char (n mod 16)]"

text \<open>\<^verbatim>\<open>sep.join(xs)\<close>\<close>

fun join :: "string \<Rightarrow> string list \<Rightarrow> string" where
  "join sep [] = []"
| "join sep [x] = x"
| "join sep (x # y # ys) = x @ sep @ join sep (y # ys)"

abbreviation dquote :: char where "dquote \<equiv> CHR 0x22"
abbreviation squote :: char where "squote \<equiv> CHR 0x27"
abbreviation backslash :: char where "backslash \<equiv> CHR 0x5C"

text \<open>
  \<^verbatim>\<open>repr\<close> of a \<^verbatim>\<open>str\<close>: single quotes, unless the text holds a single quote and no double
  quote; the quote, the backslash, tab, newline and carriage return are escaped with a
  backslash, every other character that is not printable as \<^verbatim>\<open>\xhh\<close>.
\<close>

definition printable :: "char \<Rightarrow> bool" where
  "printable c = (let n = (of_char c :: nat) in 32 \<le> n \<and> n < 127 \<or> 160 < n \<and> n \<noteq> 173)"

definition repr_char :: "char \<Rightarrow> char \<Rightarrow> string" where
  "repr_char q c =
     (if c = q \<or> c = backslash then [backslash, c]
      else if c = CHR 0x09 then [backslash, CHR ''t'']
      else if c = CHR 0x0A then [backslash, CHR ''n'']
      else if c = CHR 0x0D then [backslash, CHR ''r'']
      else if printable c then [c]
      else [backslash, CHR ''x''] @ hex2 (of_char c))"

definition repr_str :: "string \<Rightarrow> string" where
  "repr_str s =
     (let q = (if squote \<in> set s \<and> dquote \<notin> set s then dquote else squote)
      in [q] @ concat (map (repr_char q) s) @ [q])"

fun repr_key :: "pykey \<Rightarrow> string" where
  "repr_key KNone = ''None''"
| "repr_key (KStr s) = repr_str s"

fun py_repr :: "pyval \<Rightarrow> string" where
  "py_repr PNone = ''None''"
| "py_repr (PInt n) = str_int n"
| "py_repr (PStr s) = repr_str s"
| "py_repr (PList xs) = ''['' @ join '', '' (map py_repr xs) @ '']''"
| "py_repr (PDict d) =
     ''{'' @ join '', '' (map (\<lambda>(k, v). repr_key k @ '': '' @ py_repr v) d) @ ''}''"

text \<open>\<^verbatim>\<open>str(x)\<close>, which a replacement field of an f-string applies: a \<^verbatim>\<open>str\<close> is itself.\<close>

fun py_str :: "pyval \<Rightarrow> string" where
  "py_str (PStr s) = s"
| "py_str v = py_repr v"

section \<open>The state\<close>

text \<open>
  \<^verbatim>\<open>
  # Global variables
  data = []
  THRESHOLD = 100
  \<close>
  The state holds the two module globals, the store of the dictionaries that a caller
  passes as \<^verbatim>\<open>filters\<close> (the module updates them in place, so they are addressed by
  reference), and the files. The \<^verbatim>\<open>csv\<close> module is not part of the repository: a source
  file is represented by the rows that \<^verbatim>\<open>csv.DictReader\<close> yields from it, a written file by
  its text. Paths of source files and of written files are kept apart, and every path can
  be opened for writing. The rows are values: a row is taken not to be one of the objects
  passed as a filter. The limits of an interpreter (recursion depth, the number of digits
  of an \<^verbatim>\<open>int\<close> read from text) are not modelled.
\<close>

record world =
  data :: "pydict list"
  THRESHOLD :: int
  heap :: "nat \<Rightarrow> pyval"
  sources :: "string \<rightharpoonup> pydict list"
  files :: "string \<rightharpoonup> string"

text \<open>The state when the module has just been imported.\<close>

definition initial :: "(nat \<Rightarrow> pyval) \<Rightarrow> (string \<rightharpoonup> pydict list) \<Rightarrow> world" where
  "initial h src = \<lparr>data = [], THRESHOLD = 100, heap = h, sources = src, files = Map.empty\<rparr>"

section \<open>Processing\<close>

text \<open>
  \<^verbatim>\<open>
  def process_users(file='users.csv', filters=[]):
      f = open(file, 'r')
      reader = csv.DictReader(f)

      for row in reader:
          data.append(row)

      results = []
      for d in data:
          age = int(d['age'])
          if age > 18:
              score = calculate_score(d['purchases'], d['visits'])
              if score > THRESHOLD:
                  results.append(d)

      for filter in filters:
          filter['count'] = filter.get('count', 0) + 1

      f.close()
      return results
  \<close>
\<close>

text \<open>\<^verbatim>\<open>int(d['age'])\<close> and \<^verbatim>\<open>calculate_score(d['purchases'], d['visits'])\<close>\<close>

definition age_of :: "pydict \<Rightarrow> error + int" where
  "age_of d = bind (getitem d (KStr ''age'')) py_int"

definition score_of :: "pydict \<Rightarrow> error + int" where
  "score_of u =
     bind (getitem u (KStr ''purchases'')) (\<lambda>p.
     bind (getitem u (KStr ''visits'')) (\<lambda>v. calculate_score p v))"

text \<open>The second loop: the records of \<open>data\<close> that are kept, or the first exception.\<close>

fun select_users :: "int \<Rightarrow> pydict list \<Rightarrow> error + pydict list" where
  "select_users T [] = Inr []"
| "select_users T (d # ds) =
     bind (age_of d) (\<lambda>age.
       if age > 18 then
         bind (score_of d) (\<lambda>score.
           if score > T then bind (select_users T ds) (\<lambda>results. Inr (d # results))
           else select_users T ds)
       else select_users T ds)"

text \<open>\<^verbatim>\<open>filter.get('count', 0) + 1\<close>: only an \<^verbatim>\<open>int\<close> can be added to 1.\<close>

definition count_plus_one :: "pydict \<Rightarrow> error + pyval" where
  "count_plus_one d =
     (case map_of d (KStr ''count'') of
        None \<Rightarrow> Inr (PInt 1)
      | Some (PInt n) \<Rightarrow> Inr (PInt (n + 1))
      | Some _ \<Rightarrow> Inl TypeError)"

text \<open>\<^verbatim>\<open>d[k] = v\<close>: an existing key keeps its place, a new key goes last.\<close>

fun setitem :: "pydict \<Rightarrow> pykey \<Rightarrow> pyval \<Rightarrow> pydict" where
  "setitem [] k v = [(k, v)]"
| "setitem ((k', v') # d) k v = (if k' = k then (k, v) # d else (k', v') # setitem d k v)"

text \<open>
  The third loop, over the references in \<open>filters\<close>: the store afterwards, and the
  exception that stopped the loop, if any. Only a dictionary has \<^verbatim>\<open>get\<close>.
\<close>

fun bump_filters :: "(nat \<Rightarrow> pyval) \<Rightarrow> nat list \<Rightarrow> (nat \<Rightarrow> pyval) \<times> error option" where
  "bump_filters h [] = (h, None)"
| "bump_filters h (a # as) =
     (case h a of
        PDict d \<Rightarrow>
          (case count_plus_one d of
             Inl e \<Rightarrow> (h, Some e)
           | Inr c \<Rightarrow> bump_filters (h(a := PDict (setitem d (KStr ''count'') c))) as)
      | _ \<Rightarrow> (h, Some AttributeError))"

definition process_users :: "world \<Rightarrow> string \<Rightarrow> nat list \<Rightarrow> world \<times> (error + pydict list)" where
  "process_users w file filters =
     (case sources w file of
        None \<Rightarrow> (w, Inl FileNotFoundError)
      | Some rows \<Rightarrow>
          let w1 = w\<lparr>data := data w @ rows\<rparr> in
          (case select_users (THRESHOLD w1) (data w1) of
             Inl e \<Rightarrow> (w1, Inl e)
           | Inr results \<Rightarrow>
               (case bump_filters (heap w1) filters of
                  (h, Some e) \<Rightarrow> (w1\<lparr>heap := h\<rparr>, Inl e)
                | (h, None) \<Rightarrow> (w1\<lparr>heap := h\<rparr>, Inr results))))"

section \<open>The report\<close>

text \<open>
  \<^verbatim>\<open>
  def generate_report(users, output='report.txt'):
      f = open(output, 'w')

      total = 0
      avg = 0

      for u in users:
          total = total + 1
          s = calculate_score(u['purchases'], u['visits'])
          f.write(f"User: {u['name']}, Score: {s}\n")

      if total > 0:
          avg = sum([calculate_score(u['purchases'], u['visits']) for u in users]) / total

      f.write(f"\nTotal users: {total}\n")
      f.write(f"Average score: {avg}\n")

      f.close()
      return True
  \<close>
  The quotient of two \<^verbatim>\<open>int\<close>s is a float, and the text of a float is the work of the
  interpreter: \<open>float_str a b\<close> stands for \<^verbatim>\<open>str(a / b)\<close>, an \<open>OverflowError\<close> when
  the quotient is beyond the floats. When an exception leaves the function, the file
  holds what was written before.
\<close>

definition user_line :: "pydict \<Rightarrow> error + string" where
  "user_line u =
     bind (score_of u) (\<lambda>s.
     bind (getitem u (KStr ''name'')) (\<lambda>n.
       Inr (''User: '' @ py_str n @ '', Score: '' @ str_int s @ ''\<newline>'')))"

text \<open>The first loop: the text written, and the exception that stopped it, if any.\<close>

fun write_users :: "string \<Rightarrow> pydict list \<Rightarrow> string \<times> error option" where
  "write_users out [] = (out, None)"
| "write_users out (u # us) =
     (case user_line u of
        Inl e \<Rightarrow> (out, Some e)
      | Inr l \<Rightarrow> write_users (out @ l) us)"

text \<open>The list comprehension.\<close>

fun scores :: "pydict list \<Rightarrow> error + int list" where
  "scores [] = Inr []"
| "scores (u # us) = bind (score_of u) (\<lambda>s. bind (scores us) (\<lambda>ss. Inr (s # ss)))"

definition average_text :: "(int \<Rightarrow> int \<Rightarrow> error + string) \<Rightarrow> pydict list \<Rightarrow> error + string" where
  "average_text float_str users =
     (if length users > 0
      then bind (scores users) (\<lambda>ss. float_str (sum_list ss) (int (length users)))
      else Inr (str_int 0))"

definition generate_report ::
  "(int \<Rightarrow> int \<Rightarrow> error + string) \<Rightarrow> world \<Rightarrow> pydict list \<Rightarrow> string \<Rightarrow> world \<times> (error + bool)" where
  "generate_report float_str w users output =
     (case write_users [] users of
        (out, Some e) \<Rightarrow> (w\<lparr>files := (files w)(output \<mapsto> out)\<rparr>, Inl e)
      | (out, None) \<Rightarrow>
          (case average_text float_str users of
             Inl e \<Rightarrow> (w\<lparr>files := (files w)(output \<mapsto> out)\<rparr>, Inl e)
           | Inr avg \<Rightarrow>
               (w\<lparr>files := (files w)(output \<mapsto>
                    out @ ''\<newline>Total users: '' @ str_int (int (length users)) @ ''\<newline>''
                        @ ''Average score: '' @ avg @ ''\<newline>'')\<rparr>,
                Inr True)))"

section \<open>The export\<close>

text \<open>
  \<^verbatim>\<open>
  def export_json(users, file='output.json'):
      f = open(file, 'w')
      json.dump(users, f)
      f.close()
  \<close>
  \<^verbatim>\<open>json.dump\<close> with its default arguments: \<^verbatim>\<open>", "\<close> between items, \<^verbatim>\<open>": "\<close> after a
  key, and only printable ASCII in the output. In a string the double quote, the
  backslash and the control characters with a short form are escaped with a backslash,
  every other character outside \<^verbatim>\<open>' '\<close> to \<^verbatim>\<open>'~'\<close> as \<^verbatim>\<open>\uXXXX\<close>. A key that is \<^verbatim>\<open>None\<close>
  is written as the string \<^verbatim>\<open>"null"\<close>.
\<close>

definition json_escape :: "char \<Rightarrow> string" where
  "json_escape c =
     (if c = dquote then [backslash, dquote]
      else if c = backslash then [backslash, backslash]
      else if c = CHR 0x0A then [backslash, CHR ''n'']
      else if c = CHR 0x0D then [backslash, CHR ''r'']
      else if c = CHR 0x09 then [backslash, CHR ''t'']
      else if c = CHR 0x08 then [backslash, CHR ''b'']
      else if c = CHR 0x0C then [backslash, CHR ''f'']
      else if 32 \<le> (of_char c :: nat) \<and> (of_char c :: nat) \<le> 126 then [c]
      else [backslash, CHR ''u'', CHR ''0'', CHR ''0''] @ hex2 (of_char c))"

definition json_str :: "string \<Rightarrow> string" where
  "json_str s = [dquote] @ concat (map json_escape s) @ [dquote]"

fun json_key :: "pykey \<Rightarrow> string" where
  "json_key KNone = json_str ''null''"
| "json_key (KStr s) = json_str s"

fun json_dumps :: "pyval \<Rightarrow> string" where
  "json_dumps PNone = ''null''"
| "json_dumps (PInt n) = str_int n"
| "json_dumps (PStr s) = json_str s"
| "json_dumps (PList xs) = ''['' @ join '', '' (map json_dumps xs) @ '']''"
| "json_dumps (PDict d) =
     ''{'' @ join '', '' (map (\<lambda>(k, v). json_key k @ '': '' @ json_dumps v) d) @ ''}''"

text \<open>
  Whatever is passed as \<open>users\<close> is written; the callers pass the list of the records.
  The function returns \<^verbatim>\<open>None\<close>.
\<close>

definition export_json :: "world \<Rightarrow> pyval \<Rightarrow> string \<Rightarrow> world \<times> (error + unit)" where
  "export_json w users file = (w\<lparr>files := (files w)(file \<mapsto> json_dumps users)\<rparr>, Inr ())"

subsection \<open>Reading back\<close>

text \<open>
  The test suite reads an exported file back with
  \<^verbatim>\<open>
  with open(json_file, 'r') as f:
      loaded_data = json.load(f)
  \<close>
  \<^verbatim>\<open>json.load\<close> skips white space, scans one value and accepts only white space after it.
  A string ends at the next double quote; a backslash starts an escape, a raw control
  character is an error. A number is an optional minus sign and \<^verbatim>\<open>0\<close> or a digit sequence
  without a leading zero. Arrays become lists; objects become dictionaries, where a key
  met again replaces the value stored before. Values outside the model (floats,
  booleans, characters from \<^verbatim>\<open>\u0100\<close> on) are answered with \<open>Unmodelled\<close>.
\<close>

definition json_ws :: "char \<Rightarrow> bool" where
  "json_ws c = (c = CHR '' '' \<or> c = CHR 0x09 \<or> c = CHR 0x0A \<or> c = CHR 0x0D)"

definition skip_ws :: "string \<Rightarrow> string" where
  "skip_ws s = dropWhile json_ws s"

definition json_unescape :: "char \<Rightarrow> char option" where
  "json_unescape e =
     (if e = dquote then Some dquote
      else if e = backslash then Some backslash
      else if e = CHR ''/'' then Some CHR ''/''
      else if e = CHR ''b'' then Some (CHR 0x08)
      else if e = CHR ''f'' then Some (CHR 0x0C)
      else if e = CHR ''n'' then Some (CHR 0x0A)
      else if e = CHR ''r'' then Some (CHR 0x0D)
      else if e = CHR ''t'' then Some (CHR 0x09)
      else None)"

definition hex_val :: "char \<Rightarrow> nat option" where
  "hex_val c =
     (let n = (of_char c :: nat) in
      if 48 \<le> n \<and> n \<le> 57 then Some (n - 48)
      else if 97 \<le> n \<and> n \<le> 102 then Some (n - 87)
      else if 65 \<le> n \<and> n \<le> 70 then Some (n - 55)
      else None)"

fun scan_string :: "string \<Rightarrow> error + string \<times> string" where
  "scan_string [] = Inl JSONDecodeError"
| "scan_string (c # cs) =
     (if c = dquote then Inr ([], cs)
      else if c = backslash then
        (case cs of
           [] \<Rightarrow> Inl JSONDecodeError
         | e # r \<Rightarrow>
             if e = CHR ''u'' then
               (case r of
                  h1 # h2 # h3 # h4 # r' \<Rightarrow>
                    (case (hex_val h1, hex_val h2, hex_val h3, hex_val h4) of
                       (Some a, Some b, Some c, Some d) \<Rightarrow>
                         if ((a * 16 + b) * 16 + c) * 16 + d < 256
                         then bind (scan_string r')
                                (\<lambda>(s, rest). Inr (char_of (((a * 16 + b) * 16 + c) * 16 + d) # s, rest))
                         else Inl Unmodelled
                     | _ \<Rightarrow> Inl JSONDecodeError)
                | _ \<Rightarrow> Inl JSONDecodeError)
             else
               (case json_unescape e of
                  None \<Rightarrow> Inl JSONDecodeError
                | Some ch \<Rightarrow> bind (scan_string r) (\<lambda>(s, rest). Inr (ch # s, rest))))
      else if (of_char c :: nat) < 32 then Inl JSONDecodeError
      else bind (scan_string cs) (\<lambda>(s, rest). Inr (c # s, rest)))"

definition digits_val :: "string \<Rightarrow> int" where
  "digits_val ds = foldl (\<lambda>acc c. acc * 10 + digit_val c) 0 ds"

definition is_exponent :: "string \<Rightarrow> bool" where
  "is_exponent s =
     (case s of
        e # r \<Rightarrow>
          (e = CHR ''e'' \<or> e = CHR ''E'') \<and>
          (case r of
             c # r' \<Rightarrow>
               if c = CHR ''+'' \<or> c = CHR ''-'' then (case r' of d # _ \<Rightarrow> is_digit d | [] \<Rightarrow> False)
               else is_digit c
           | [] \<Rightarrow> False)
      | [] \<Rightarrow> False)"

definition is_fraction :: "string \<Rightarrow> bool" where
  "is_fraction s = (case s of p # d # _ \<Rightarrow> p = CHR ''.'' \<and> is_digit d | _ \<Rightarrow> False)"

definition scan_natural :: "string \<Rightarrow> (int \<times> string) option" where
  "scan_natural s =
     (case s of
        [] \<Rightarrow> None
      | c # cs \<Rightarrow>
          if c = CHR ''0'' then Some (0, cs)
          else if is_digit c then Some (digits_val (takeWhile is_digit s), dropWhile is_digit s)
          else None)"

definition scan_number :: "string \<Rightarrow> error + pyval \<times> string" where
  "scan_number s =
     (case (case s of c # cs \<Rightarrow> if c = CHR ''-'' then map_option (\<lambda>(n, r). (- n, r)) (scan_natural cs)
                                 else scan_natural s
                     | [] \<Rightarrow> None) of
        None \<Rightarrow> Inl JSONDecodeError
      | Some (n, r) \<Rightarrow>
          if is_fraction r \<or> is_exponent r then Inl Unmodelled else Inr (PInt n, r))"

definition dict_of_pairs :: "pydict \<Rightarrow> pydict" where
  "dict_of_pairs ps = foldl (\<lambda>d (k, v). setitem d k v) [] ps"

definition starts_with :: "string \<Rightarrow> string \<Rightarrow> bool" where
  "starts_with p s = (take (length p) s = p)"

text \<open>
  \<open>scan_once\<close> scans a value, \<open>scan_array\<close> the items after \<^verbatim>\<open>[\<close> and \<open>scan_object\<close> the
  members after \<^verbatim>\<open>{\<close>. Every nested call comes after a character has been read, so the
  three functions recurse on a bound that \<open>json_loads\<close> sets from the length of the text.
\<close>

fun scan_once :: "nat \<Rightarrow> string \<Rightarrow> error + pyval \<times> string"
  and scan_array :: "nat \<Rightarrow> string \<Rightarrow> error + pyval list \<times> string"
  and scan_object :: "nat \<Rightarrow> string \<Rightarrow> error + pydict \<times> string"
where
  "scan_once 0 s = Inl Unmodelled"
| "scan_once (Suc n) s =
     (case s of
        [] \<Rightarrow> Inl JSONDecodeError
      | c # cs \<Rightarrow>
          if c = dquote then bind (scan_string cs) (\<lambda>(x, r). Inr (PStr x, r))
          else if c = CHR ''{'' then
            (case skip_ws cs of
               [] \<Rightarrow> Inl JSONDecodeError
             | c' # r \<Rightarrow>
                 if c' = CHR ''}'' then Inr (PDict [], r)
                 else bind (scan_object n (c' # r)) (\<lambda>(ps, r'). Inr (PDict (dict_of_pairs ps), r')))
          else if c = CHR ''['' then
            (case skip_ws cs of
               [] \<Rightarrow> Inl JSONDecodeError
             | c' # r \<Rightarrow>
                 if c' = CHR '']'' then Inr (PList [], r)
                 else bind (scan_array n (c' # r)) (\<lambda>(xs, r'). Inr (PList xs, r')))
          else if starts_with ''null'' s then Inr (PNone, drop 4 s)
          else if starts_with ''true'' s \<or> starts_with ''false'' s \<or> starts_with ''NaN'' s
                  \<or> starts_with ''Infinity'' s \<or> starts_with ''-Infinity'' s
          then Inl Unmodelled
          else scan_number s)"
| "scan_array 0 s = Inl Unmodelled"
| "scan_array (Suc n) s =
     bind (scan_once n s) (\<lambda>(x, r).
       case skip_ws r of
         [] \<Rightarrow> Inl JSONDecodeError
       | c # r' \<Rightarrow>
           if c = CHR '']'' then Inr ([x], r')
           else if c = CHR '','' then bind (scan_array n (skip_ws r')) (\<lambda>(xs, r''). Inr (x # xs, r''))
           else Inl JSONDecodeError)"
| "scan_object 0 s = Inl Unmodelled"
| "scan_object (Suc n) s =
     (case s of
        [] \<Rightarrow> Inl JSONDecodeError
      | q # cs \<Rightarrow>
          if q \<noteq> dquote then Inl JSONDecodeError
          else
            bind (scan_string cs) (\<lambda>(k, r).
              case skip_ws r of
                [] \<Rightarrow> Inl JSONDecodeError
              | c # r1 \<Rightarrow>
                  if c \<noteq> CHR '':'' then Inl JSONDecodeError
                  else
                    bind (scan_once n (skip_ws r1)) (\<lambda>(x, r2).
                      case skip_ws r2 of
                        [] \<Rightarrow> Inl JSONDecodeError
                      | c' # r3 \<Rightarrow>
                          if c' = CHR ''}'' then Inr ([(KStr k, x)], r3)
                          else if c' = CHR '','' then
                            bind (scan_object n (skip_ws r3)) (\<lambda>(ps, r4). Inr ((KStr k, x) # ps, r4))
                          else Inl JSONDecodeError)))"

definition json_loads :: "string \<Rightarrow> error + pyval" where
  "json_loads s =
     bind (scan_once (Suc (length s)) (skip_ws s)) (\<lambda>(x, r).
       if skip_ws r = [] then Inr x else Inl JSONDecodeError)"

definition json_load :: "world \<Rightarrow> string \<Rightarrow> error + pyval" where
  "json_load w file =
     (case files w file of None \<Rightarrow> Inl FileNotFoundError | Some s \<Rightarrow> json_loads s)"

section \<open>The skeleton functions\<close>

text \<open>
  \<^verbatim>\<open>
  class ScoringConfig:
      def __init__(self, purchase_weight: int = 10, visit_weight: int = 5):
          raise NotImplementedError(f"ScoringConfig.__init__ called")

  def read_users_from_csv(filepath: str = 'users.csv') -> list:
      raise NotImplementedError(f"read_users_from_csv called")

  def calculate_user_score(purchases: str, visits: str, config: ScoringConfig = None) -> int:
      raise NotImplementedError(f"calculate_user_score called")
  \<close>
  A call binds its arguments to the parameters before the body runs. It is a \<open>TypeError\<close>
  when there are more positional arguments than parameters, when a keyword names no
  parameter or one already given by position, when a keyword comes twice, and when a
  parameter without a default is left without a value. \<open>binds params required args kwargs\<close>
  tells whether the positional \<open>args\<close> and the keyword \<open>kwargs\<close> bind to \<open>params\<close>, of
  which the first \<open>required\<close> have no default. (The \<open>self\<close> of the constructor is the new
  object, not an argument of the call.) No instance of \<open>ScoringConfig\<close> can exist, since
  the constructor raises: the \<open>config\<close> argument of \<open>calculate_user_score\<close> is an arbitrary
  value.
\<close>

definition binds :: "string list \<Rightarrow> nat \<Rightarrow> pyval list \<Rightarrow> (string \<times> pyval) list \<Rightarrow> bool" where
  "binds params required args kwargs \<longleftrightarrow>
     length args \<le> length params \<and>
     distinct (map fst kwargs) \<and>
     list_all (\<lambda>k. k \<in> set (drop (length args) params)) (map fst kwargs) \<and>
     list_all (\<lambda>p. p \<in> set (map fst kwargs)) (drop (length args) (take required params))"

record ScoringConfig =
  purchase_weight :: pyval
  visit_weight :: pyval

definition ScoringConfig_init :: "pyval list \<Rightarrow> (string \<times> pyval) list \<Rightarrow> error + ScoringConfig" where
  "ScoringConfig_init args kwargs =
     (if binds [''purchase_weight'', ''visit_weight''] 0 args kwargs
      then Inl (NotImplementedError ''ScoringConfig.__init__ called'')
      else Inl TypeError)"

definition read_users_from_csv :: "pyval list \<Rightarrow> (string \<times> pyval) list \<Rightarrow> error + pydict list" where
  "read_users_from_csv args kwargs =
     (if binds [''filepath''] 0 args kwargs
      then Inl (NotImplementedError ''read_users_from_csv called'')
      else Inl TypeError)"

definition calculate_user_score :: "pyval list \<Rightarrow> (string \<times> pyval) list \<Rightarrow> error + int" where
  "calculate_user_score args kwargs =
     (if binds [''purchases'', ''visits'', ''config''] 2 args kwargs
      then Inl (NotImplementedError ''calculate_user_score called'')
      else Inl TypeError)"

section \<open>The properties, as predicates\<close>


text \<open>
  A record that is read without an exception and left out: its age is an integer, and
  either that is at most 18 or the score is an integer at most the threshold.
\<close>

definition rejected :: "int \<Rightarrow> pydict \<Rightarrow> bool" where
  "rejected T d =
     (case age_of d of
        Inl e \<Rightarrow> False
      | Inr age \<Rightarrow> age \<le> 18 \<or> (case score_of d of Inl e \<Rightarrow> False | Inr score \<Rightarrow> score \<le> T))"


text \<open>
  What \<^verbatim>\<open>filter.get('count', 0)\<close> reads in an object that can be a filter: a dictionary
  whose \<^verbatim>\<open>count\<close>, when present, is an \<^verbatim>\<open>int\<close>.
\<close>

definition filter_ok :: "pyval \<Rightarrow> bool" where
  "filter_ok x =
     (case x of
        PDict d \<Rightarrow>
          (case map_of d (KStr ''count'') of None \<Rightarrow> True | Some (PInt n) \<Rightarrow> True | _ \<Rightarrow> False)
      | _ \<Rightarrow> False)"



text \<open>
  The values that are read back as they were written: every dictionary in them has string
  keys (pairwise distinct, as the keys of a dictionary are).
\<close>

fun str_keyed :: "pyval \<Rightarrow> bool" where
  "str_keyed (PList xs) = list_all str_keyed xs"
| "str_keyed (PDict d) =
     (distinct (map fst d) \<and> list_all (\<lambda>(k, v). k \<noteq> KNone \<and> str_keyed v) d)"
| "str_keyed v = True"

text \<open>What can follow a value inside a text: nothing, a comma or a closing bracket.\<close>

definition delimited :: "string \<Rightarrow> bool" where
  "delimited rest = (case rest of [] \<Rightarrow> True | c # _ \<Rightarrow> c = CHR '','' \<or> c = CHR '']'' \<or> c = CHR ''}'')"

definition value_start :: "char \<Rightarrow> bool" where
  "value_start c \<longleftrightarrow>
     \<not> json_ws c \<and> c \<noteq> CHR '']'' \<and> c \<noteq> CHR ''}'' \<and> c \<noteq> CHR '','' \<and> c \<noteq> CHR '':''"

text \<open>A member of an object, as \<open>json_dumps\<close> writes it.\<close>

definition member :: "pykey \<times> pyval \<Rightarrow> string" where
  "member p = json_key (fst p) @ '': '' @ json_dumps (snd p)"

section \<open>The data of the test suite\<close>

text \<open>
  The rows \<^verbatim>\<open>csv.DictReader\<close> yields from the files that \<^verbatim>\<open>test_user_processor.py\<close> writes,
  under the header \<^verbatim>\<open>name,age,purchases,visits\<close>, and the records its report test passes.
\<close>

definition user_row :: "string \<Rightarrow> string \<Rightarrow> string \<Rightarrow> string \<Rightarrow> pydict" where
  "user_row n a p v =
     [(KStr ''name'', PStr n), (KStr ''age'', PStr a),
      (KStr ''purchases'', PStr p), (KStr ''visits'', PStr v)]"

definition sample_rows :: "pydict list" where
  "sample_rows =
     [user_row ''Alice Johnson'' ''25'' ''15'' ''30'',
      user_row ''Bob Smith'' ''17'' ''5'' ''10'',
      user_row ''Carol White'' ''35'' ''25'' ''50'',
      user_row ''David Brown'' ''42'' ''8'' ''20'',
      user_row ''Eve Davis'' ''29'' ''30'' ''45'',
      user_row ''Frank Miller'' ''19'' ''12'' ''25'',
      user_row ''Grace Lee'' ''55'' ''40'' ''80'']"

definition edge_rows :: "pydict list" where
  "edge_rows =
     [user_row ''Exactly18'' ''18'' ''50'' ''50'', user_row ''Above18'' ''19'' ''50'' ''50'',
      user_row ''ExactScore'' ''25'' ''10'' ''0'', user_row ''AboveScore'' ''25'' ''11'' ''0'']"

definition sample_sources :: "string \<rightharpoonup> pydict list" where
  "sample_sources =
     [''test_users.csv'' \<mapsto> sample_rows,
      ''empty.csv'' \<mapsto> [],
      ''invalid.csv'' \<mapsto> [user_row ''John Doe'' ''invalid_age'' ''10'' ''20''],
      ''edge.csv'' \<mapsto> edge_rows,
      ''one.csv'' \<mapsto> [user_row ''Alice Johnson'' ''25'' ''15'' ''30'']]"

text \<open>The module just imported, with these files; every object of the store an empty dictionary.\<close>

definition fresh :: world where
  "fresh = initial (\<lambda>a. PDict []) sample_sources"


definition score_records :: "pydict list" where
  "score_records =
     [[(KStr ''name'', PStr ''Alice''), (KStr ''score'', PInt 300)],
      [(KStr ''name'', PStr ''Bob''), (KStr ''score'', PInt 200)]]"

text \<open>
  The records of the export test, and the row that \<^verbatim>\<open>csv.DictReader\<close> yields from the line
  \<^verbatim>\<open>Alice Johnson,25,15,30,extra\<close>: the surplus field is stored under the key \<^verbatim>\<open>None\<close>.
\<close>

definition export_records :: pyval where
  "export_records =
     PList [PDict [(KStr ''name'', PStr ''Alice''), (KStr ''age'', PInt 25), (KStr ''score'', PInt 300)],
            PDict [(KStr ''name'', PStr ''Bob''), (KStr ''age'', PInt 30), (KStr ''score'', PInt 200)]]"

definition over_long_row :: pydict where
  "over_long_row =
     user_row ''Alice Johnson'' ''25'' ''15'' ''30'' @ [(KNone, PList [PStr ''extra''])]"

section \<open>Auxiliary lemmas\<close>

lemma bind_Inl [simp]: "bind (Inl e) f = Inl e"
  by (simp add: bind_def)

lemma bind_Inr [simp]: "bind (Inr x) f = f x"
  by (simp add: bind_def)


lemma binds_iff:
  "binds params required args kwargs \<longleftrightarrow>
     length args \<le> length params \<and> distinct (map fst kwargs) \<and>
     set (map fst kwargs) \<subseteq> set (drop (length args) params) \<and>
     set (drop (length args) (take required params)) \<subseteq> set (map fst kwargs)"
  by (auto simp: binds_def list_all_iff)

lemma str_int_0: "str_int 0 = ''0''"
  by code_simp


subsection \<open>The selection loop\<close>

lemma select_users_rejected:
  "(\<forall>d \<in> set ds. rejected T d) \<Longrightarrow> select_users T ds = Inr []"
  by (induction ds) (auto simp: rejected_def split: sum.splits)




subsection \<open>The loop over the filters\<close>

lemma map_of_setitem: "map_of (setitem d k v) = (map_of d)(k \<mapsto> v)"
  by (induction d) auto

lemma filter_ok_count: "filter_ok (PDict d) \<Longrightarrow> \<exists>c. count_plus_one d = Inr (PInt c)"
  by (auto simp: filter_ok_def count_plus_one_def split: option.splits pyval.splits)

lemma filter_ok_bump:
  "(\<forall>a \<in> set as. filter_ok (h a)) \<Longrightarrow> snd (bump_filters h as) = None"
proof (induction as arbitrary: h)
  case Nil
  then show ?case by simp
next
  case (Cons b as)
  from Cons.prems have ok: "filter_ok (h b)" by simp
  then obtain d where d: "h b = PDict d"
    by (cases "h b") (simp_all add: filter_ok_def)
  with ok obtain c where c: "count_plus_one d = Inr (PInt c)"
    using filter_ok_count by auto
  let ?h = "h(b := PDict (setitem d (KStr ''count'') (PInt c)))"
  have "filter_ok (?h a)" if "a \<in> set as" for a
    using that Cons.prems by (simp add: filter_ok_def map_of_setitem)
  then have "snd (bump_filters ?h as) = None" by (intro Cons.IH) blast
  with d c show ?case by simp
qed








subsection \<open>A call of \<open>process_users\<close>\<close>




section \<open>The round trip through the exported text\<close>

subsection \<open>Characters\<close>

lemma of_char_lt_256: "(of_char c :: nat) < 256"
  by (cases c) (simp add: of_char_Char horner_sum_eq_sum)

lemma hex_val_hex_char: "d < 16 \<Longrightarrow> hex_val (hex_char d) = Some d"
  by (simp add: hex_val_def hex_char_def Let_def)

lemma hex_val_0: "hex_val CHR ''0'' = Some 0"
  by (simp add: hex_val_def)

lemma scan_string_unicode:
  "scan_string ([backslash, CHR ''u'', CHR ''0'', CHR ''0''] @ hex2 (of_char c) @ s) =
     bind (scan_string s) (\<lambda>(x, r). Inr (c # x, r))"
proof -
  let ?n = "of_char c :: nat"
  have n: "?n < 256" by (rule of_char_lt_256)
  then have d: "?n div 16 < 16" "?n mod 16 < 16" by presburger+
  have v: "((0 * 16 + 0) * 16 + ?n div 16) * 16 + ?n mod 16 = ?n" by simp
  show ?thesis
    using n by (simp add: hex2_def hex_val_0 hex_val_hex_char [OF d(1)] hex_val_hex_char [OF d(2)] del: scan_string.simps(2) add: scan_string.simps(2) [of backslash])
qed

lemma scan_string_escape:
  "scan_string (json_escape c @ s) = bind (scan_string s) (\<lambda>(x, r). Inr (c # x, r))"
proof -
  consider "c = dquote" | "c = backslash" | "c = CHR 0x0A" | "c = CHR 0x0D" | "c = CHR 0x09"
    | "c = CHR 0x08" | "c = CHR 0x0C"
    | "c \<noteq> dquote" "c \<noteq> backslash" "32 \<le> (of_char c :: nat)" "(of_char c :: nat) \<le> 126"
    | "c \<noteq> dquote" "c \<noteq> backslash" "c \<noteq> CHR 0x0A" "c \<noteq> CHR 0x0D" "c \<noteq> CHR 0x09"
      "c \<noteq> CHR 0x08" "c \<noteq> CHR 0x0C" "\<not> (32 \<le> (of_char c :: nat) \<and> (of_char c :: nat) \<le> 126)"
    by blast
  then show ?thesis
  proof cases
    case 8
    then show ?thesis by (auto simp: json_escape_def)
  next
    case 9
    then show ?thesis using scan_string_unicode [of c s] by (simp add: json_escape_def)
  qed (simp_all add: json_escape_def json_unescape_def)
qed

lemma scan_string_dquote: "scan_string (dquote # rest) = Inr ([], rest)"
  by simp

lemma scan_string_json_str:
  "scan_string (concat (map json_escape s) @ dquote # rest) = Inr (s, rest)"
  by (induction s) (simp_all add: scan_string_escape scan_string_dquote del: scan_string.simps(2))

subsection \<open>Numbers\<close>

declare str_nat.simps [simp del]

lemma digit_char_0: "digit_char 0 = CHR ''0''"
  by code_simp

lemma of_char_digit_char: "d < 10 \<Longrightarrow> (of_char (digit_char d) :: nat) = 48 + d"
  by (simp add: digit_char_def)

lemma is_digit_digit_char: "d < 10 \<Longrightarrow> is_digit (digit_char d)"
  by (simp add: is_digit_def of_char_digit_char)

lemma digit_val_digit_char: "d < 10 \<Longrightarrow> digit_val (digit_char d) = int d"
  by (simp add: digit_val_def of_char_digit_char)

lemma digit_char_eq_0: "d < 10 \<Longrightarrow> digit_char d = CHR ''0'' \<longleftrightarrow> d = 0"
proof
  assume "d < 10" "digit_char d = CHR ''0''"
  then have "(of_char (digit_char d) :: nat) = of_char CHR ''0''" by simp
  with \<open>d < 10\<close> show "d = 0" by (simp add: of_char_digit_char)
next
  assume "d = 0"
  then show "digit_char d = CHR ''0''" by (simp add: digit_char_0)
qed

lemma str_nat_digits: "list_all is_digit (str_nat n)"
proof (induction n rule: str_nat.induct)
  case (1 n)
  show ?case
  proof (cases "n < 10")
    case True
    then show ?thesis by (subst str_nat.simps) (simp add: is_digit_digit_char)
  next
    case False
    with 1 show ?thesis
      by (subst str_nat.simps) (simp add: is_digit_digit_char)
  qed
qed

lemma str_nat_first:
  "\<exists>c cs. str_nat n = c # cs \<and> is_digit c \<and> (c = CHR ''0'' \<longrightarrow> n = 0 \<and> cs = [])"
proof (induction n rule: str_nat.induct)
  case (1 n)
  show ?case
  proof (cases "n < 10")
    case True
    then show ?thesis by (subst str_nat.simps) (simp add: is_digit_digit_char digit_char_eq_0)
  next
    case False
    with 1 obtain c cs where "str_nat (n div 10) = c # cs" "is_digit c"
      "c = CHR ''0'' \<longrightarrow> n div 10 = 0 \<and> cs = []"
      by blast
    moreover from False have "n div 10 \<noteq> 0" by simp
    ultimately show ?thesis using False by (subst str_nat.simps) auto
  qed
qed

lemma digits_val_snoc: "digits_val (ds @ [c]) = digits_val ds * 10 + digit_val c"
  by (simp add: digits_val_def)

lemma digits_val_str_nat: "digits_val (str_nat n) = int n"
proof (induction n rule: str_nat.induct)
  case (1 n)
  show ?case
  proof (cases "n < 10")
    case True
    then show ?thesis by (subst str_nat.simps) (simp add: digits_val_def digit_val_digit_char)
  next
    case False
    with 1 have "digits_val (str_nat (n div 10)) = int (n div 10)" by simp
    with False show ?thesis
      by (subst str_nat.simps) (simp add: digits_val_snoc digit_val_digit_char zdiv_int zmod_int)
  qed
qed

lemma delimited_not_digit: "delimited rest \<Longrightarrow> takeWhile is_digit rest = [] \<and> dropWhile is_digit rest = rest"
  by (cases rest) (auto simp: delimited_def is_digit_def)

lemma delimited_not_float: "delimited rest \<Longrightarrow> \<not> is_fraction rest \<and> \<not> is_exponent rest"
  by (cases rest) (auto simp: delimited_def is_fraction_def is_exponent_def split: list.splits)

lemma span_digits:
  assumes "list_all is_digit ds" and "delimited rest"
  shows "takeWhile is_digit (ds @ rest) = ds" and "dropWhile is_digit (ds @ rest) = rest"
  using assms delimited_not_digit [of rest]
  by (simp_all add: list_all_iff takeWhile_append2 dropWhile_append2)

lemma scan_natural_str_nat:
  assumes "delimited rest"
  shows "scan_natural (str_nat n @ rest) = Some (int n, rest)"
proof -
  obtain c cs where s: "str_nat n = c # cs" and c: "is_digit c"
    and z: "c = CHR ''0'' \<longrightarrow> n = 0 \<and> cs = []"
    using str_nat_first by blast
  show ?thesis
  proof (cases "c = CHR ''0''")
    case True
    with s z show ?thesis by (simp add: scan_natural_def)
  next
    case False
    have "scan_natural ((c # cs) @ rest) =
            Some (digits_val (takeWhile is_digit ((c # cs) @ rest)), dropWhile is_digit ((c # cs) @ rest))"
      using False c by (simp add: scan_natural_def)
    also have "\<dots> = Some (digits_val (str_nat n), rest)"
      using span_digits [OF str_nat_digits assms, of n] by (simp only: s [symmetric])
    finally show ?thesis by (simp only: s [symmetric] digits_val_str_nat)
  qed
qed

lemma scan_number_str_int:
  assumes "delimited rest"
  shows "scan_number (str_int i @ rest) = Inr (PInt i, rest)"
proof (cases "i < 0")
  case True
  then show ?thesis
    using scan_natural_str_nat [OF assms, of "nat (- i)"] delimited_not_float [OF assms]
    by (simp add: scan_number_def str_int_def)
next
  case False
  obtain c cs where s: "str_nat (nat i) = c # cs" and c: "is_digit c"
    using str_nat_first by blast
  from c have "c \<noteq> CHR ''-''" by (auto simp: is_digit_def)
  with False s show ?thesis
    using scan_natural_str_nat [OF assms, of "nat i"] delimited_not_float [OF assms]
    by (simp add: scan_number_def str_int_def)
qed

subsection \<open>White space and first characters\<close>

lemma skip_ws_stop: "\<not> json_ws c \<Longrightarrow> skip_ws (c # r) = c # r"
  by (simp add: skip_ws_def)

lemma skip_ws_space: "skip_ws (CHR '' '' # r) = skip_ws r"
  by (simp add: skip_ws_def json_ws_def)

lemma skip_ws_Nil: "skip_ws [] = []"
  by (simp add: skip_ws_def)

lemma str_int_first:
  "\<exists>c cs. str_int i = c # cs \<and> (is_digit c \<or> c = CHR ''-'' \<and> (\<exists>d ds. cs = d # ds \<and> is_digit d))"
proof -
  obtain c cs where "str_nat (nat \<bar>i\<bar>) = c # cs" "is_digit c"
    using str_nat_first by blast
  then show ?thesis by (cases "i < 0") (auto simp: str_int_def abs_if)
qed

lemma is_digit_value_start: "is_digit c \<Longrightarrow> value_start c"
  by (auto simp: is_digit_def value_start_def json_ws_def)

lemma json_dumps_first: "\<exists>c cs. json_dumps v = c # cs \<and> value_start c"
proof (cases v)
  case (PInt i)
  obtain c cs where "str_int i = c # cs" "is_digit c \<or> c = CHR ''-''"
    using str_int_first by blast
  with PInt show ?thesis
    by (auto simp: is_digit_value_start) (simp add: value_start_def json_ws_def)
qed (simp_all add: value_start_def json_ws_def json_str_def)

lemma json_key_first: "\<exists>cs. json_key k = dquote # cs"
  by (cases k) (simp_all add: json_str_def)

lemma skip_ws_json_dumps: "skip_ws (json_dumps v @ r) = json_dumps v @ r"
proof -
  obtain c cs where "json_dumps v = c # cs" "value_start c"
    using json_dumps_first by blast
  then show ?thesis by (simp add: skip_ws_stop value_start_def)
qed

lemma starts_with_Cons: "starts_with (p # ps) (c # r) \<longleftrightarrow> p = c \<and> starts_with ps r"
  by (auto simp: starts_with_def)

lemma starts_with_Nil: "starts_with [] r"
  by (simp add: starts_with_def)

lemma is_digit_not_special:
  assumes "is_digit c"
  shows "c \<noteq> dquote" "c \<noteq> CHR ''{''" "c \<noteq> CHR ''[''" "c \<noteq> CHR ''n''" "c \<noteq> CHR ''t''"
    "c \<noteq> CHR ''f''" "c \<noteq> CHR ''N''" "c \<noteq> CHR ''I''" "c \<noteq> CHR ''-''"
  using assms by (auto simp: is_digit_def)

lemma scan_once_str: "scan_once (Suc n) (json_str s @ rest) = Inr (PStr s, rest)"
  by (simp add: json_str_def scan_string_json_str del: scan_string.simps)

lemma scan_once_digit:
  assumes "is_digit c"
  shows "scan_once (Suc n) (c # r) = scan_number (c # r)"
  using is_digit_not_special [OF assms] by (simp add: starts_with_Cons)

lemma scan_once_minus_digit:
  assumes "is_digit d"
  shows "scan_once (Suc n) (CHR ''-'' # d # r) = scan_number (CHR ''-'' # d # r)"
  using is_digit_not_special [OF assms] by (simp add: starts_with_Cons)

lemma str_int_cases:
  obtains (digit) c cs where "str_int i = c # cs" "is_digit c"
  | (minus) d ds where "str_int i = CHR ''-'' # d # ds" "is_digit d"
proof -
  obtain c cs where "str_nat (nat \<bar>i\<bar>) = c # cs" "is_digit c"
    using str_nat_first by blast
  then show ?thesis using that by (cases "i < 0") (simp_all add: str_int_def abs_if)
qed

lemma scan_once_int:
  assumes "delimited rest"
  shows "scan_once (Suc n) (str_int i @ rest) = Inr (PInt i, rest)"
proof -
  have "scan_once (Suc n) (str_int i @ rest) = scan_number (str_int i @ rest)"
  proof (cases i rule: str_int_cases)
    case (digit c cs)
    then show ?thesis using scan_once_digit [of c n "cs @ rest"] by (simp only: append_Cons)
  next
    case (minus d ds)
    then show ?thesis using scan_once_minus_digit [of d n "ds @ rest"] by (simp only: append_Cons)
  qed
  then show ?thesis using scan_number_str_int [OF assms, of i] by simp
qed

subsection \<open>Arrays\<close>

lemma delimited_simps:
  "delimited (CHR '']'' # r)" "delimited (CHR ''}'' # r)" "delimited (CHR '','' # r)" "delimited []"
  by (simp_all add: delimited_def)

lemma skip_ws_delims:
  "skip_ws (CHR '']'' # r) = CHR '']'' # r" "skip_ws (CHR ''}'' # r) = CHR ''}'' # r"
  "skip_ws (CHR '','' # r) = CHR '','' # r" "skip_ws (CHR '':'' # r) = CHR '':'' # r"
  by (simp_all add: skip_ws_def json_ws_def)

lemma scan_array_step_last:
  assumes "scan_once n s = Inr (x, CHR '']'' # rest)"
  shows "scan_array (Suc n) s = Inr ([x], rest)"
  using assms by (simp add: skip_ws_delims)

lemma scan_array_step_more:
  assumes "scan_once n s = Inr (x, CHR '','' # CHR '' '' # s')"
    and "skip_ws s' = s'"
    and "scan_array n s' = Inr (xs, rest)"
  shows "scan_array (Suc n) s = Inr (x # xs, rest)"
  using assms by (simp add: skip_ws_delims skip_ws_space)

lemma scan_array_items:
  assumes "xs \<noteq> []"
    and "\<And>x n rest. x \<in> set xs \<Longrightarrow> delimited rest \<Longrightarrow> length (json_dumps x) \<le> n \<Longrightarrow>
           scan_once n (json_dumps x @ rest) = Inr (x, rest)"
    and "length (join '', '' (map json_dumps xs)) < m"
  shows "scan_array m (join '', '' (map json_dumps xs) @ CHR '']'' # rest) = Inr (xs, rest)"
  using assms
proof (induction xs arbitrary: m)
  case Nil
  then show ?case by simp
next
  case (Cons x xs)
  from Cons.prems(3) obtain n where m: "m = Suc n" by (cases m) auto
  show ?case
  proof (cases xs)
    case Nil
    with Cons.prems(3) m have "length (json_dumps x) \<le> n" by simp
    then have "scan_once n (json_dumps x @ CHR '']'' # rest) = Inr (x, CHR '']'' # rest)"
      by (intro Cons.prems(2)) (simp_all add: delimited_simps)
    then show ?thesis unfolding m using Nil by (simp add: scan_array_step_last del: scan_array.simps)
  next
    case (Cons y ys)
    let ?tail = "join '', '' (map json_dumps xs) @ CHR '']'' # rest"
    from Cons.prems(3) m Cons have len: "length (json_dumps x) \<le> n"
      "length (join '', '' (map json_dumps xs)) < n"
      by simp_all
    have "scan_once n (json_dumps x @ CHR '','' # CHR '' '' # ?tail) =
            Inr (x, CHR '','' # CHR '' '' # ?tail)"
      using len by (intro Cons.prems(2)) (simp_all add: delimited_simps)
    moreover have "skip_ws ?tail = ?tail"
      using Cons skip_ws_json_dumps [of y] by (cases ys) simp_all
    moreover have "scan_array n ?tail = Inr (xs, rest)"
      using Cons Cons.prems(2) len by (intro Cons.IH) simp_all
    ultimately have "scan_array (Suc n) (json_dumps x @ CHR '','' # CHR '' '' # ?tail) = Inr (x # xs, rest)"
      by (rule scan_array_step_more)
    then show ?thesis unfolding m using Cons by (simp del: scan_array.simps)
  qed
qed

subsection \<open>Objects\<close>

lemma member_eq: "(\<lambda>(k, v). json_key k @ '': '' @ json_dumps v) = member"
  by (auto simp: member_def fun_eq_iff)

lemma skip_ws_member: "skip_ws (member p @ r) = member p @ r"
proof -
  obtain cs where "json_key (fst p) = dquote # cs" using json_key_first by blast
  then show ?thesis by (simp add: member_def skip_ws_def json_ws_def)
qed

lemma scan_object_step_last:
  assumes "scan_once n s = Inr (x, CHR ''}'' # rest)" and "skip_ws s = s"
  shows "scan_object (Suc n) (json_str k @ CHR '':'' # CHR '' '' # s) = Inr ([(KStr k, x)], rest)"
  using assms
  by (simp add: json_str_def scan_string_json_str skip_ws_delims skip_ws_space del: scan_string.simps)

lemma scan_object_step_more:
  assumes "scan_once n s = Inr (x, CHR '','' # CHR '' '' # s')" and "skip_ws s = s"
    and "skip_ws s' = s'"
    and "scan_object n s' = Inr (ps, rest)"
  shows "scan_object (Suc n) (json_str k @ CHR '':'' # CHR '' '' # s) = Inr ((KStr k, x) # ps, rest)"
  using assms
  by (simp add: json_str_def scan_string_json_str skip_ws_delims skip_ws_space del: scan_string.simps)

lemma member_KStr: "member (KStr k, x) @ r = json_str k @ CHR '':'' # CHR '' '' # json_dumps x @ r"
  by (simp add: member_def)

lemma length_member: "length (json_dumps x) < length (member (k, x))"
  by (simp add: member_def)

lemma scan_object_members:
  assumes "d \<noteq> []"
    and "\<And>k x. (k, x) \<in> set d \<Longrightarrow> k \<noteq> KNone"
    and "\<And>k x n rest. (k, x) \<in> set d \<Longrightarrow> delimited rest \<Longrightarrow> length (json_dumps x) \<le> n \<Longrightarrow>
           scan_once n (json_dumps x @ rest) = Inr (x, rest)"
    and "length (join '', '' (map member d)) < m"
  shows "scan_object m (join '', '' (map member d) @ CHR ''}'' # rest) = Inr (d, rest)"
  using assms
proof (induction d arbitrary: m)
  case Nil
  then show ?case by simp
next
  case (Cons p d)
  obtain k0 x where p0: "p = (k0, x)" by (cases p)
  with Cons.prems(2) [of k0 x] obtain k where p: "p = (KStr k, x)" by (cases k0) auto
  from Cons.prems(4) obtain n where m: "m = Suc n" by (cases m) auto
  show ?case
  proof (cases d)
    case Nil
    with Cons.prems(4) m p have "length (json_dumps x) \<le> n"
      using length_member [of x "KStr k"] by simp
    then have "scan_once n (json_dumps x @ CHR ''}'' # rest) = Inr (x, CHR ''}'' # rest)"
      using p by (intro Cons.prems(3) [of "KStr k"]) (simp_all add: delimited_simps)
    then have "scan_object (Suc n) (json_str k @ CHR '':'' # CHR '' '' # json_dumps x @ CHR ''}'' # rest)
        = Inr ([(KStr k, x)], rest)"
      using skip_ws_json_dumps by (rule scan_object_step_last)
    then show ?thesis unfolding m using Nil p by (simp add: member_KStr del: scan_object.simps)
  next
    case (Cons q qs)
    let ?tail = "join '', '' (map member d) @ CHR ''}'' # rest"
    from Cons.prems(4) m Cons p have len: "length (json_dumps x) \<le> n"
      "length (join '', '' (map member d)) < n"
      using length_member [of x "KStr k"] by simp_all
    have "scan_once n (json_dumps x @ CHR '','' # CHR '' '' # ?tail) =
            Inr (x, CHR '','' # CHR '' '' # ?tail)"
      using len p by (intro Cons.prems(3) [of "KStr k"]) (simp_all add: delimited_simps)
    moreover have "skip_ws ?tail = ?tail"
      using Cons skip_ws_member [of q] by (cases qs) simp_all
    moreover have "scan_object n ?tail = Inr (d, rest)"
    proof (rule Cons.IH)
      show "d \<noteq> []" using Cons by simp
      show "k' \<noteq> KNone" if "(k', x') \<in> set d" for k' x'
        using that Cons.prems(2) [of k' x'] by simp
      show "scan_once n' (json_dumps x' @ r) = Inr (x', r)"
        if "(k', x') \<in> set d" "delimited r" "length (json_dumps x') \<le> n'" for k' x' n' r
        using that Cons.prems(3) [of k' x' r n'] by simp
      show "length (join '', '' (map member d)) < n" by (rule len(2))
    qed
    ultimately have "scan_object (Suc n)
        (json_str k @ CHR '':'' # CHR '' '' # json_dumps x @ CHR '','' # CHR '' '' # ?tail) =
        Inr ((KStr k, x) # d, rest)"
      using skip_ws_json_dumps by (intro scan_object_step_more)
    then show ?thesis unfolding m using Cons p by (simp add: member_KStr del: scan_object.simps)
  qed
qed

subsection \<open>Building the dictionary\<close>

lemma setitem_new: "k \<notin> fst ` set d \<Longrightarrow> setitem d k v = d @ [(k, v)]"
  by (induction d) auto

lemma foldl_setitem:
  "distinct (map fst (acc @ ps)) \<Longrightarrow> foldl (\<lambda>d (k, v). setitem d k v) acc ps = acc @ ps"
proof (induction ps arbitrary: acc)
  case Nil
  then show ?case by simp
next
  case (Cons p ps)
  obtain k v where p: "p = (k, v)" by (cases p)
  with Cons.prems have "k \<notin> fst ` set acc" by auto
  then have "setitem acc k v = acc @ [(k, v)]" by (rule setitem_new)
  moreover from Cons.prems p have "distinct (map fst ((acc @ [(k, v)]) @ ps))" by simp
  ultimately show ?case using Cons.IH [of "acc @ [(k, v)]"] p by simp
qed

lemma dict_of_pairs_distinct: "distinct (map fst d) \<Longrightarrow> dict_of_pairs d = d"
  using foldl_setitem [of "[]" d] by (simp add: dict_of_pairs_def)

subsection \<open>Values\<close>

lemma scan_once_null: "scan_once (Suc n) (''null'' @ rest) = Inr (PNone, rest)"
  by (simp add: starts_with_Cons starts_with_Nil)

lemma scan_once_array:
  assumes "s = c # r" and "value_start c" and "scan_array n s = Inr (xs, rest)"
  shows "scan_once (Suc n) (CHR ''['' # s) = Inr (PList xs, rest)"
  using assms by (simp add: skip_ws_stop value_start_def del: scan_array.simps)

lemma scan_once_object:
  assumes "s = dquote # r" and "scan_object n s = Inr (d, rest)" and "distinct (map fst d)"
  shows "scan_once (Suc n) (CHR ''{'' # s) = Inr (PDict d, rest)"
  using assms
  by (simp add: skip_ws_def json_ws_def dict_of_pairs_distinct del: scan_object.simps)

lemma scan_once_empty:
  "scan_once (Suc n) (''[]'' @ rest) = Inr (PList [], rest)"
  "scan_once (Suc n) (''{}'' @ rest) = Inr (PDict [], rest)"
  by (simp_all add: skip_ws_delims)

lemma join_first:
  assumes "xs \<noteq> []" and "\<exists>c cs. hd xs = c # cs \<and> P c"
  shows "\<exists>c cs. join sep xs @ r = c # cs \<and> P c"
proof (cases xs)
  case Nil
  with assms show ?thesis by simp
next
  case (Cons x ys)
  with assms obtain c cs where "x = c # cs" "P c" by auto
  with Cons show ?thesis by (cases ys) auto
qed

lemma json_dumps_PDict:
  "json_dumps (PDict d) = CHR ''{'' # join '', '' (map member d) @ ''}''"
  by (simp add: member_eq [symmetric])

lemma scan_once_json_dumps:
  "str_keyed v \<Longrightarrow> delimited rest \<Longrightarrow> length (json_dumps v) \<le> n \<Longrightarrow>
   scan_once n (json_dumps v @ rest) = Inr (v, rest)"
proof (induction v arbitrary: n rest)
  case PNone
  then obtain n' where "n = Suc n'" by (cases n) auto
  then show ?case using scan_once_null by simp
next
  case (PInt i)
  obtain c cs where "str_int i = c # cs" using str_int_first by blast
  with PInt obtain n' where "n = Suc n'" by (cases n) auto
  with PInt show ?case using scan_once_int by simp
next
  case (PStr s)
  then obtain n' where "n = Suc n'" by (cases n) (auto simp: json_str_def)
  then show ?case using scan_once_str by simp
next
  case (PList xs)
  from PList.prems obtain n' where n: "n = Suc n'" by (cases n) auto
  show ?case
  proof (cases "xs = []")
    case True
    then show ?thesis unfolding n using scan_once_empty(1) by simp
  next
    case False
    let ?s = "join '', '' (map json_dumps xs) @ CHR '']'' # rest"
    have "scan_array n' ?s = Inr (xs, rest)"
    proof (rule scan_array_items [OF False])
      show "scan_once m (json_dumps x @ r) = Inr (x, r)"
        if "x \<in> set xs" "delimited r" "length (json_dumps x) \<le> m" for x m r
        using that PList.prems(1) by (intro PList.IH) (simp_all add: list_all_iff)
      show "length (join '', '' (map json_dumps xs)) < n'"
        using PList.prems(3) n by simp
    qed
    moreover obtain c r where "?s = c # r" "value_start c"
      using join_first [of "map json_dumps xs" value_start "'', ''" "CHR '']'' # rest"]
        False json_dumps_first [of "hd xs"] by (auto simp: hd_map)
    ultimately have "scan_once (Suc n') (CHR ''['' # ?s) = Inr (PList xs, rest)"
      using scan_once_array by blast
    then show ?thesis unfolding n by simp
  qed
next
  case (PDict d)
  note json_dumps.simps(5) [simp del]
  from PDict.prems obtain n' where n: "n = Suc n'" by (cases n) (auto simp: json_dumps_PDict)
  from PDict.prems(1) have dist: "distinct (map fst d)" by simp
  show ?case
  proof (cases "d = []")
    case True
    then show ?thesis unfolding n using scan_once_empty(2) by (simp add: json_dumps_PDict)
  next
    case False
    let ?s = "join '', '' (map member d) @ CHR ''}'' # rest"
    have "scan_object n' ?s = Inr (d, rest)"
    proof (rule scan_object_members [OF False])
      show "k \<noteq> KNone" if "(k, x) \<in> set d" for k x
        using that PDict.prems(1) by (auto simp: list_all_iff)
      show "scan_once m (json_dumps x @ r) = Inr (x, r)"
        if "(k, x) \<in> set d" "delimited r" "length (json_dumps x) \<le> m" for k x m r
      proof (rule PDict.IH)
        show "(k, x) \<in> set d" by (rule that(1))
        show "x \<in> Basic_BNFs.snds (k, x)" by simp
        show "str_keyed x" using that(1) PDict.prems(1) by (auto simp: list_all_iff)
      qed (use that in simp_all)
      show "length (join '', '' (map member d)) < n'"
        using PDict.prems(3) n by (simp add: json_dumps_PDict)
    qed
    moreover obtain r where "?s = dquote # r"
    proof -
      have "\<exists>c cs. hd (map member d) = c # cs \<and> c = dquote"
        using False json_key_first [of "fst (hd d)"] by (auto simp: hd_map member_def)
      then show ?thesis
        using join_first [of "map member d" "\<lambda>c. c = dquote" "'', ''" "CHR ''}'' # rest"] False that
        by auto
    qed
    ultimately have "scan_once (Suc n') (CHR ''{'' # ?s) = Inr (PDict d, rest)"
      using dist scan_once_object by blast
    then show ?thesis unfolding n by (simp add: json_dumps_PDict)
  qed
qed

lemma json_loads_json_dumps: "str_keyed v \<Longrightarrow> json_loads (json_dumps v) = Inr v"
  using scan_once_json_dumps [of v "[]" "Suc (length (json_dumps v))"] skip_ws_json_dumps [of v "[]"]
  by (simp add: json_loads_def delimited_simps skip_ws_Nil del: scan_once.simps)

section \<open>The claims\<close>

text \<open>
  C1. For all values \<open>p\<close> and \<open>v\<close> that \<^verbatim>\<open>int\<close> converts, to \<open>a\<close> and \<open>b\<close>,
  \<open>calculate_score\<close> returns exactly \<open>a * 10 + b * 5\<close>: the multipliers of the source are
  the constants 10 for purchases and 5 for visits.
\<close>

theorem calculate_score_formula:
  assumes "py_int p = Inr a" and "py_int v = Inr b"
  shows "calculate_score p v = Inr (a * 10 + b * 5)"
  using assms by (simp add: calculate_score_def)

text \<open>The examples of the claim: 15 purchases and 30 visits give 300, none give 0.\<close>

theorem calculate_score_formula_witness:
  "py_int (PStr ''15'') = Inr 15 \<and> py_int (PInt 30) = Inr 30 \<and>
   calculate_score (PStr ''15'') (PInt 30) = Inr 300 \<and>
   py_int (PInt 0) = Inr 0 \<and> calculate_score (PInt 0) (PInt 0) = Inr 0"
proof -
  have p: "py_int (PStr ''15'') = Inr 15" by code_simp
  have v: "py_int (PInt 30) = Inr 30" by simp
  have z: "py_int (PInt 0) = Inr 0" by simp
  from calculate_score_formula [OF p v] calculate_score_formula [OF z z] p v z
  show ?thesis by simp
qed







text \<open>
  C4. The code misses the claim: \<open>read_users_from_csv\<close> is a placeholder, which raises
  \<open>NotImplementedError\<close> where the test suite expects \<open>UserDataError\<close> with the reason
  \<^verbatim>\<open>not found\<close>.
\<close>

theorem read_users_from_csv_missing_file:
  "read_users_from_csv [PStr ''does_not_exist.csv''] [] =
     Inl (NotImplementedError ''read_users_from_csv called'')"
  by (simp add: read_users_from_csv_def binds_def)

text \<open>
  C5. The code misses the claim: on the row of the test suite whose age is not a number,
  \<open>process_users\<close> lets the \<open>ValueError\<close> of \<^verbatim>\<open>int\<close> escape, where the test suite expects
  \<open>UserDataError\<close> with the reason \<^verbatim>\<open>Invalid user data\<close>.
\<close>

theorem process_users_invalid_age:
  "sources fresh ''invalid.csv'' = Some [user_row ''John Doe'' ''invalid_age'' ''10'' ''20''] \<and>
   snd (process_users fresh ''invalid.csv'' []) = Inl ValueError"
  by code_simp

text \<open>
  C6. The code misses the claim: \<open>generate_report\<close> does not read the score of a record
  but computes it again from \<^verbatim>\<open>purchases\<close> and \<^verbatim>\<open>visits\<close>. On the two records of the claim,
  which hold a name and a score, it raises \<open>KeyError\<close> and leaves the report empty.
\<close>

theorem generate_report_score_records:
  "generate_report float_str w score_records ''report.txt'' =
     (w\<lparr>files := (files w)(''report.txt'' \<mapsto> [])\<rparr>, Inl (KeyError (KStr ''purchases'')))"
  by (simp add: generate_report_def score_records_def user_line_def score_of_def getitem_def)

text \<open>
  C7. The code misses the claim: \<open>generate_report\<close> writes the average line in every
  report. For no records at all the line reads \<^verbatim>\<open>Average score: 0\<close>.
\<close>

theorem generate_report_no_users:
  "generate_report float_str w [] output =
     (w\<lparr>files := (files w)(output \<mapsto>
          ''\<newline>Total users: 0\<newline>Average score: 0\<newline>'')\<rparr>, Inr True)"
  by (simp add: generate_report_def average_text_def str_int_0)

text \<open>
  C8, as stated, fails for the empty input: after a call that kept a record, a call on a
  file without data rows returns that record again.
\<close>

theorem process_users_empty_counterexample:
  "sources fresh ''empty.csv'' = Some [] \<and>
   snd (process_users (fst (process_users fresh ''one.csv'' [])) ''empty.csv'' []) =
     Inr [user_row ''Alice Johnson'' ''25'' ''15'' ''30'']"
  by code_simp

text \<open>
  C8, amended. When no record that the call goes through passes (the records left in
  \<open>data\<close> by earlier calls and the rows of the file: each has an integer age, and either
  that is at most 18 or its score is an integer at most \<open>THRESHOLD\<close>) and the filters
  are dictionaries with an integer \<^verbatim>\<open>count\<close> or none, \<open>process_users\<close> returns the
  empty list and raises nothing.
\<close>

theorem process_users_none_pass:
  assumes "sources w file = Some rows"
    and "\<forall>d \<in> set (data w @ rows). rejected (THRESHOLD w) d"
    and "\<forall>a \<in> set filters. filter_ok (heap w a)"
  shows "snd (process_users w file filters) = Inr []"
  using assms select_users_rejected [of "data w @ rows" "THRESHOLD w"]
    filter_ok_bump [of filters "heap w"]
  by (auto simp: process_users_def Let_def split: sum.splits prod.splits option.splits)

text \<open>
  The rows of the test suite under a threshold of 10000, and a first call on a file
  without data rows.
\<close>

theorem process_users_none_pass_witness:
  "sources (fresh\<lparr>THRESHOLD := 10000\<rparr>) ''test_users.csv'' = Some sample_rows \<and>
   data (fresh\<lparr>THRESHOLD := 10000\<rparr>) = [] \<and>
   list_all (rejected 10000) sample_rows \<and>
   filter_ok (heap (fresh\<lparr>THRESHOLD := 10000\<rparr>) 0) \<and>
   snd (process_users (fresh\<lparr>THRESHOLD := 10000\<rparr>) ''test_users.csv'' [0]) = Inr [] \<and>
   sources fresh ''empty.csv'' = Some [] \<and>
   snd (process_users fresh ''empty.csv'' []) = Inr []"
proof -
  let ?w = "fresh\<lparr>THRESHOLD := 10000\<rparr>"
  have h1: "sources ?w ''test_users.csv'' = Some sample_rows"
    by (simp add: fresh_def initial_def sample_sources_def)
  have d: "data ?w = []" "THRESHOLD ?w = 10000"
    by (simp_all add: fresh_def initial_def)
  have r: "list_all (rejected 10000) sample_rows"
    by code_simp
  have f: "filter_ok (heap ?w 0)"
    by (simp add: fresh_def initial_def filter_ok_def)
  have h2: "\<forall>d \<in> set (data ?w @ sample_rows). rejected (THRESHOLD ?w) d"
    using r d by (simp add: list_all_iff)
  have h3: "\<forall>a \<in> set [0]. filter_ok (heap ?w a)"
    using f by simp
  have e1: "sources fresh ''empty.csv'' = Some []"
    by (simp add: fresh_def initial_def sample_sources_def)
  have e2: "\<forall>d \<in> set (data fresh @ []). rejected (THRESHOLD fresh) d"
    by (simp add: fresh_def initial_def)
  have e3: "\<forall>a \<in> set []. filter_ok (heap fresh a)"
    by simp
  from process_users_none_pass [OF h1 h2 h3] process_users_none_pass [OF e1 e2 e3] h1 d r f e1
  show ?thesis by blast
qed

text \<open>
  C9, as stated, fails: a row with a surplus field passes through \<open>process_users\<close> with
  the key \<^verbatim>\<open>None\<close>; exported and read back, the record has the key \<^verbatim>\<open>"null"\<close> instead, and
  nothing under \<^verbatim>\<open>None\<close>.
\<close>

theorem export_json_surplus_counterexample:
  "snd (process_users (fresh\<lparr>sources := [''long.csv'' \<mapsto> [over_long_row]]\<rparr>) ''long.csv'' []) =
     Inr [over_long_row] \<and>
   json_load (fst (export_json fresh (PList [PDict over_long_row]) ''output.json'')) ''output.json'' =
     Inr (PList [PDict (user_row ''Alice Johnson'' ''25'' ''15'' ''30'' @
                        [(KStr ''null'', PList [PStr ''extra''])])]) \<and>
   getitem over_long_row KNone = Inr (PList [PStr ''extra'']) \<and>
   getitem (user_row ''Alice Johnson'' ''25'' ''15'' ''30'' @
            [(KStr ''null'', PList [PStr ''extra''])]) KNone =
     Inl (KeyError KNone)"
  by code_simp

text \<open>
  C9, amended. For every value whose dictionaries have string keys only, so for every list
  of such records, \<open>export_json\<close> returns without an exception and reading the destination
  back yields the value that was exported, with its fields and its order.
\<close>

theorem export_json_round_trip:
  assumes "str_keyed users"
  shows "snd (export_json w users file) = Inr () \<and>
         json_load (fst (export_json w users file)) file = Inr users"
  using json_loads_json_dumps [OF assms] by (simp add: export_json_def json_load_def)

text \<open>
  The records of the export test, and the empty list: the file then holds the empty
  array.
\<close>

theorem export_json_round_trip_witness:
  "str_keyed export_records \<and>
   json_load (fst (export_json fresh export_records ''output.json'')) ''output.json'' =
     Inr export_records \<and>
   str_keyed (PList []) \<and>
   files (fst (export_json fresh (PList []) ''empty.json'')) ''empty.json'' = Some ''[]'' \<and>
   json_load (fst (export_json fresh (PList []) ''empty.json'')) ''empty.json'' = Inr (PList [])"
proof -
  have r: "str_keyed export_records" by code_simp
  have e: "str_keyed (PList [])" by simp
  have f: "files (fst (export_json fresh (PList []) ''empty.json'')) ''empty.json'' = Some ''[]''"
    by (simp add: export_json_def)
  from export_json_round_trip [OF r, of fresh "''output.json''"]
    export_json_round_trip [OF e, of fresh "''empty.json''"] r e f
  show ?thesis by blast
qed

text \<open>
  C10, as stated, fails: the calls of the test suite \<^verbatim>\<open>ScoringConfig(score_threshold=10000)\<close>
  and \<^verbatim>\<open>ScoringConfig(purchase_multiplier=20, visit_multiplier=10)\<close> name no parameter of the
  constructor, and raise \<open>TypeError\<close> before its body runs. So do a parameter given twice,
  a third positional argument, a keyword that \<open>read_users_from_csv\<close> does not have, and
  \<^verbatim>\<open>calculate_user_score(15)\<close>, which leaves \<^verbatim>\<open>visits\<close> without a value.
\<close>

theorem skeleton_keyword_counterexample:
  "ScoringConfig_init [] [(''score_threshold'', PInt 10000)] = Inl TypeError \<and>
   ScoringConfig_init [] [(''purchase_multiplier'', PInt 20), (''visit_multiplier'', PInt 10)] =
     Inl TypeError \<and>
   ScoringConfig_init [PInt 10] [(''purchase_weight'', PInt 3)] = Inl TypeError \<and>
   ScoringConfig_init [PInt 10, PInt 5, PInt 100] [] = Inl TypeError \<and>
   read_users_from_csv [] [(''path'', PStr ''users.csv'')] = Inl TypeError \<and>
   calculate_user_score [PInt 15] [] = Inl TypeError"
  by (simp add: ScoringConfig_init_def read_users_from_csv_def calculate_user_score_def binds_def)

text \<open>
  C10, amended. None of the constructor of \<open>ScoringConfig\<close>, \<open>read_users_from_csv\<close> and
  \<open>calculate_user_score\<close> returns a value on any input. A call raises
  \<open>NotImplementedError\<close> exactly when its arguments bind to the parameters: no more
  positional arguments than parameters, keywords that are pairwise distinct and name
  parameters not given by position, and a value for \<^verbatim>\<open>purchases\<close> and \<^verbatim>\<open>visits\<close>. Every
  other call raises \<open>TypeError\<close>.
\<close>

theorem skeleton_raises:
  "(ScoringConfig_init args kwargs = Inl (NotImplementedError ''ScoringConfig.__init__ called'') \<longleftrightarrow>
      length args \<le> 2 \<and> distinct (map fst kwargs) \<and>
      set (map fst kwargs) \<subseteq> set (drop (length args) [''purchase_weight'', ''visit_weight''])) \<and>
   (read_users_from_csv args kwargs = Inl (NotImplementedError ''read_users_from_csv called'') \<longleftrightarrow>
      length args \<le> 1 \<and> distinct (map fst kwargs) \<and>
      set (map fst kwargs) \<subseteq> set (drop (length args) [''filepath''])) \<and>
   (calculate_user_score args kwargs = Inl (NotImplementedError ''calculate_user_score called'') \<longleftrightarrow>
      length args \<le> 3 \<and> distinct (map fst kwargs) \<and>
      set (map fst kwargs) \<subseteq> set (drop (length args) [''purchases'', ''visits'', ''config'']) \<and>
      set (drop (length args) [''purchases'', ''visits'']) \<subseteq> set (map fst kwargs)) \<and>
   ScoringConfig_init args kwargs \<in>
     {Inl (NotImplementedError ''ScoringConfig.__init__ called''), Inl TypeError} \<and>
   read_users_from_csv args kwargs \<in>
     {Inl (NotImplementedError ''read_users_from_csv called''), Inl TypeError} \<and>
   calculate_user_score args kwargs \<in>
     {Inl (NotImplementedError ''calculate_user_score called''), Inl TypeError} \<and>
   (\<forall>x. ScoringConfig_init args kwargs \<noteq> Inr x) \<and>
   (\<forall>x. read_users_from_csv args kwargs \<noteq> Inr x) \<and>
   (\<forall>x. calculate_user_score args kwargs \<noteq> Inr x)"
  by (simp add: ScoringConfig_init_def read_users_from_csv_def calculate_user_score_def binds_iff)

text \<open>
  Calls that bind, among them those of the test suite: \<^verbatim>\<open>ScoringConfig()\<close>,
  \<^verbatim>\<open>read_users_from_csv(path)\<close> and \<^verbatim>\<open>calculate_user_score(15, 30, config)\<close>.
\<close>

theorem skeleton_raises_witness:
  "ScoringConfig_init [] [] = Inl (NotImplementedError ''ScoringConfig.__init__ called'') \<and>
   ScoringConfig_init [PInt 10] [(''visit_weight'', PInt 5)] =
     Inl (NotImplementedError ''ScoringConfig.__init__ called'') \<and>
   read_users_from_csv [PStr ''test_users.csv''] [] =
     Inl (NotImplementedError ''read_users_from_csv called'') \<and>
   calculate_user_score [PInt 15, PInt 30, PNone] [] =
     Inl (NotImplementedError ''calculate_user_score called'') \<and>
   calculate_user_score [PInt 15] [(''visits'', PInt 30)] =
     Inl (NotImplementedError ''calculate_user_score called'')"
proof -
  note t = skeleton_raises
  have "ScoringConfig_init [] [] = Inl (NotImplementedError ''ScoringConfig.__init__ called'')"
    using t [of "[]" "[]"] by simp
  moreover have "ScoringConfig_init [PInt 10] [(''visit_weight'', PInt 5)] =
     Inl (NotImplementedError ''ScoringConfig.__init__ called'')"
    using t [of "[PInt 10]" "[(''visit_weight'', PInt 5)]"] by simp
  moreover have "read_users_from_csv [PStr ''test_users.csv''] [] =
     Inl (NotImplementedError ''read_users_from_csv called'')"
    using t [of "[PStr ''test_users.csv'']" "[]"] by simp
  moreover have "calculate_user_score [PInt 15, PInt 30, PNone] [] =
     Inl (NotImplementedError ''calculate_user_score called'')"
    using t [of "[PInt 15, PInt 30, PNone]" "[]"] by simp
  moreover have "calculate_user_score [PInt 15] [(''visits'', PInt 30)] =
     Inl (NotImplementedError ''calculate_user_score called'')"
    using t [of "[PInt 15]" "[(''visits'', PInt 30)]"] by simp
  ultimately show ?thesis by blast
qed

end
